theory Spec2Isabelle
  imports Main "HOL-Library.Sublist" "HOL-Library.AList"
begin

section \<open>Strings of the Go standard library\<close>

text \<open>
  A Go \<open>string\<close> is a sequence of bytes; it is modelled as \<^typ>\<open>string\<close>.
  The two separators of \<open>sys.go\<close> are the one-byte strings \<open>`\`\<close> and \<open>"\n"\<close>.
\<close>

definition backslash :: string where
  "backslash = [CHR 0x5C]"

definition newline :: string where
  "newline = [CHR 0x0A]"

text \<open>
  \<open>strings.Join(elems, sep)\<close>: the empty string for no element, the element itself for
  one, and otherwise the elements with \<open>sep\<close> between each two neighbours.
\<close>

fun strings_Join :: "string list \<Rightarrow> string \<Rightarrow> string" where
  "strings_Join [] sep = []"
| "strings_Join [e] sep = e"
| "strings_Join (e # es) sep = e @ sep @ strings_Join es sep"




section \<open>Path utilities\<close>

text \<open>
  \<open>PathJoin(elem ...string)\<close>: the loop \<open>for i, e := range elem\<close> returns
  \<open>strings.Join(elem[i:], `\`)\<close> at the first index whose element is not empty, and the
  function returns the empty string when the loop ends.
\<close>

function PathJoin_from :: "nat \<Rightarrow> string list \<Rightarrow> string" where
  "PathJoin_from i elem =
     (if i < length elem
      then (if elem ! i \<noteq> [] then strings_Join (drop i elem) backslash
            else PathJoin_from (Suc i) elem)
      else [])"
  by pat_completeness auto
termination
  by (relation "measure (\<lambda>(i, elem). length elem - i)") auto

definition PathJoin :: "string list \<Rightarrow> string" where
  "PathJoin elem = PathJoin_from 0 elem"

section \<open>A model of the operating system\<close>

text \<open>
  The functions of \<open>sys.go\<close> are thin wrappers around calls of the Go packages \<open>os\<close>,
  \<open>io\<close> and \<open>io/ioutil\<close>. The operating system they talk to is modelled as a file
  table (every file and directory under its path, a list of names from the root) and a
  fault table (which system call on which path fails, and with which error), so that
  every error return of the source is a branch that some world reaches.

  A Go \<open>error\<close> is an \<^typ>\<open>'a option\<close> of the error number, \<open>nil\<close> being \<^const>\<open>None\<close>;
  a pair \<open>(value, error)\<close> of which one side is meaningful is a sum, \<^const>\<open>Inl\<close> the error.
  Paths are resolved against one root: a path string is cut at \<open>\\<close> and \<open>/\<close>, empty
  segments are dropped, and volume names, \<open>.\<close> and \<open>..\<close> are not interpreted. Permission
  bits are passed and ignored, as \<open>os.Mkdir\<close> does on Windows.
\<close>

datatype errno = ENOENT | EEXIST | ENOTDIR | EISDIR | EACCES | EINVAL | ENOSPC | EIO | EOF

type_synonym path = "string list"

datatype entry = File string | Dir

datatype sysop = OpStat | OpLstat | OpOpen | OpCreate | OpRead | OpWrite | OpSync
  | OpReaddir | OpMkdir | OpRemove

record world =
  files :: "(path \<times> entry) list"
  faults :: "sysop \<Rightarrow> path \<Rightarrow> errno option"

record FileInfo =
  Name :: string
  IsDir :: bool

datatype os_File = FileHandle path

definition IsPathSeparator :: "char \<Rightarrow> bool" where
  "IsPathSeparator c = (c = CHR 0x5C \<or> c = CHR ''/'')"

fun segments :: "string \<Rightarrow> string \<Rightarrow> path" where
  "segments cur [] = (if cur = [] then [] else [cur])"
| "segments cur (c # cs) =
     (if IsPathSeparator c
      then (if cur = [] then segments [] cs else cur # segments [] cs)
      else segments (cur @ [c]) cs)"

definition components :: "string \<Rightarrow> path" where
  "components name = segments [] name"

definition entry_at :: "world \<Rightarrow> path \<Rightarrow> entry option" where
  "entry_at w p = (if p = [] then Some Dir else map_of (files w) p)"

definition children :: "world \<Rightarrow> path \<Rightarrow> (string \<times> entry) list" where
  "children w p = map (\<lambda>(q, e). (last q, e)) (filter (\<lambda>(q, e). q \<noteq> [] \<and> butlast q = p) (files w))"

definition info_of :: "path \<Rightarrow> entry \<Rightarrow> FileInfo" where
  "info_of p e = \<lparr>Name = (if p = [] then backslash else last p), IsDir = (e = Dir)\<rparr>"

subsection \<open>Well-formed file tables\<close>

text \<open>
  A file table is closed under parents when every entry has a non-empty path and lies in
  a directory of the table (or in the root).
\<close>

definition parents_exist :: "world \<Rightarrow> bool" where
  "parents_exist w = list_all (\<lambda>(q, e). q \<noteq> [] \<and> entry_at w (butlast q) = Some Dir) (files w)"

text \<open>
  A name of a directory entry is not empty and holds no separator. A file table is well
  formed when it is closed under parents, no path occurs twice and every segment of
  every path is a name.
\<close>

definition valid_name :: "string \<Rightarrow> bool" where
  "valid_name n = (n \<noteq> [] \<and> list_all (\<lambda>c. \<not> IsPathSeparator c) n)"

definition well_formed :: "world \<Rightarrow> bool" where
  "well_formed w =
     (parents_exist w \<and> distinct (map fst (files w)) \<and>
      list_all (\<lambda>(q, e). list_all valid_name q) (files w))"

subsection \<open>System calls on resolved paths\<close>

definition sys_stat :: "sysop \<Rightarrow> path \<Rightarrow> world \<Rightarrow> errno + entry" where
  "sys_stat op p w =
     (case faults w op p of
        Some e \<Rightarrow> Inl e
      | None \<Rightarrow> (case entry_at w p of None \<Rightarrow> Inl ENOENT | Some e \<Rightarrow> Inr e))"

definition sys_mkdir :: "path \<Rightarrow> world \<Rightarrow> errno option \<times> world" where
  "sys_mkdir p w =
     (case faults w OpMkdir p of
        Some e \<Rightarrow> (Some e, w)
      | None \<Rightarrow>
          (if entry_at w p \<noteq> None then (Some EEXIST, w)
           else (case entry_at w (butlast p) of
                   None \<Rightarrow> (Some ENOENT, w)
                 | Some (File c) \<Rightarrow> (Some ENOTDIR, w)
                 | Some Dir \<Rightarrow> (None, w\<lparr>files := files w @ [(p, Dir)]\<rparr>))))"

text \<open>
  \<open>os.MkdirAll\<close>: the fast path stops when \<open>Stat\<close> tells a directory (success) or a file
  (\<open>ENOTDIR\<close>); the slow path creates the parent first, then calls \<open>Mkdir\<close>, and on its
  failure checks with \<open>Lstat\<close> whether the directory exists after all.
\<close>

function mkdir_all :: "path \<Rightarrow> world \<Rightarrow> errno option \<times> world" where
  "mkdir_all p w =
     (case sys_stat OpStat p w of
        Inr e \<Rightarrow> (if e = Dir then (None, w) else (Some ENOTDIR, w))
      | Inl x \<Rightarrow>
          (case (if 1 < length p then mkdir_all (butlast p) w else (None, w)) of
             (Some err, w1) \<Rightarrow> (Some err, w1)
           | (None, w1) \<Rightarrow>
               (case sys_mkdir p w1 of
                  (None, w2) \<Rightarrow> (None, w2)
                | (Some err, w2) \<Rightarrow>
                    (case sys_stat OpLstat p w2 of
                       Inr Dir \<Rightarrow> (None, w2)
                     | Inr (File c) \<Rightarrow> (Some err, w2)
                     | Inl y \<Rightarrow> (Some err, w2)))))"
  by pat_completeness auto
termination
  by (relation "measure (\<lambda>(p, w). length p)") auto

text \<open>
  \<open>os.RemoveAll\<close> removes the path and everything below it. It removes all it can and
  returns the first error it met: an entry whose removal fails stays, and so do the
  directories above it.
\<close>

definition stuck_below :: "path \<Rightarrow> world \<Rightarrow> path list" where
  "stuck_below p w =
     map fst (filter (\<lambda>(q, e). prefix p q \<and> faults w OpRemove q \<noteq> None) (files w))"

definition remove_all :: "path \<Rightarrow> world \<Rightarrow> errno option \<times> world" where
  "remove_all p w =
     (case stuck_below p w of
        [] \<Rightarrow> (if p = [] then Some EINVAL else None,
               w\<lparr>files := filter (\<lambda>(q, e). \<not> prefix p q) (files w)\<rparr>)
      | s # ss \<Rightarrow> (faults w OpRemove s,
               w\<lparr>files := filter (\<lambda>(q, e). \<not> prefix p q \<or> (\<exists>t \<in> set (s # ss). prefix q t))
                              (files w)\<rparr>))"

subsection \<open>The calls of packages \<open>os\<close>, \<open>io\<close>, \<open>io/ioutil\<close> and \<open>path\<close>\<close>

definition os_IsNotExist :: "errno \<Rightarrow> bool" where
  "os_IsNotExist err = (err = ENOENT)"

definition os_Stat :: "string \<Rightarrow> world \<Rightarrow> errno + FileInfo" where
  "os_Stat name w =
     (if name = [] then Inl ENOENT
      else (case sys_stat OpStat (components name) w of
              Inl e \<Rightarrow> Inl e
            | Inr e \<Rightarrow> Inr (info_of (components name) e)))"

definition os_Open :: "string \<Rightarrow> world \<Rightarrow> errno + os_File" where
  "os_Open name w =
     (if name = [] then Inl ENOENT
      else (case faults w OpOpen (components name) of
              Some e \<Rightarrow> Inl e
            | None \<Rightarrow> (case entry_at w (components name) of
                         None \<Rightarrow> Inl ENOENT
                       | Some e \<Rightarrow> Inr (FileHandle (components name)))))"

text \<open>\<open>os.Create\<close> creates the file or truncates it; the directory it lies in must exist.\<close>

definition os_Create :: "string \<Rightarrow> world \<Rightarrow> (errno + os_File) \<times> world" where
  "os_Create name w =
     (if name = [] then (Inl ENOENT, w)
      else (let p = components name in
            case faults w OpCreate p of
              Some e \<Rightarrow> (Inl e, w)
            | None \<Rightarrow>
                (case entry_at w p of
                   Some Dir \<Rightarrow> (Inl EISDIR, w)
                 | Some (File c) \<Rightarrow>
                     (Inr (FileHandle p), w\<lparr>files := AList.update p (File []) (files w)\<rparr>)
                 | None \<Rightarrow>
                     (case entry_at w (butlast p) of
                        Some Dir \<Rightarrow>
                          (Inr (FileHandle p), w\<lparr>files := AList.update p (File []) (files w)\<rparr>)
                      | Some (File c) \<Rightarrow> (Inl ENOTDIR, w)
                      | None \<Rightarrow> (Inl ENOENT, w)))))"

text \<open>
  Writing through a handle appends to the file, which is all the source does with a
  handle after \<open>os.Create\<close>. The number of bytes written is returned with the error.
\<close>

definition file_write :: "os_File \<Rightarrow> string \<Rightarrow> world \<Rightarrow> (nat \<times> errno option) \<times> world" where
  "file_write f s w =
     (case f of FileHandle p \<Rightarrow>
        (case faults w OpWrite p of
           Some e \<Rightarrow> ((0, Some e), w)
         | None \<Rightarrow>
             (case entry_at w p of
                Some (File c) \<Rightarrow>
                  ((length s, None), w\<lparr>files := AList.update p (File (c @ s)) (files w)\<rparr>)
              | Some Dir \<Rightarrow> ((0, Some EISDIR), w)
              | None \<Rightarrow> ((0, Some EINVAL), w))))"

definition file_read_all :: "os_File \<Rightarrow> world \<Rightarrow> errno + string" where
  "file_read_all f w =
     (case f of FileHandle p \<Rightarrow>
        (case faults w OpRead p of
           Some e \<Rightarrow> Inl e
         | None \<Rightarrow>
             (case entry_at w p of
                Some (File c) \<Rightarrow> Inr c
              | Some Dir \<Rightarrow> Inl EISDIR
              | None \<Rightarrow> Inl EINVAL)))"

definition File_WriteString :: "os_File \<Rightarrow> string \<Rightarrow> world \<Rightarrow> (nat \<times> errno option) \<times> world" where
  "File_WriteString f s w = file_write f s w"

definition File_Sync :: "os_File \<Rightarrow> world \<Rightarrow> errno option" where
  "File_Sync f w = (case f of FileHandle p \<Rightarrow> faults w OpSync p)"

text \<open>\<open>io.Copy(dst, src)\<close>: everything readable from \<open>src\<close> is written to \<open>dst\<close>.\<close>

definition io_Copy :: "os_File \<Rightarrow> os_File \<Rightarrow> world \<Rightarrow> (nat \<times> errno option) \<times> world" where
  "io_Copy dst src w =
     (case file_read_all src w of
        Inl e \<Rightarrow> ((0, Some e), w)
      | Inr c \<Rightarrow> file_write dst c w)"

text \<open>
  \<open>Readdir\<close> and \<open>Readdirnames\<close> on a nil handle return \<open>os.ErrInvalid\<close>; with \<open>n <= 0\<close>
  they return all the entries of the directory, and with \<open>n > 0\<close> at most \<open>n\<close> of them,
  \<open>io.EOF\<close> when there is none.
\<close>

definition File_Readdir :: "os_File option \<Rightarrow> int \<Rightarrow> world \<Rightarrow> FileInfo list \<times> errno option" where
  "File_Readdir f n w =
     (case f of
        None \<Rightarrow> ([], Some EINVAL)
      | Some (FileHandle p) \<Rightarrow>
          (case faults w OpReaddir p of
             Some e \<Rightarrow> ([], Some e)
           | None \<Rightarrow>
               (case entry_at w p of
                  Some Dir \<Rightarrow>
                    (let all = map (\<lambda>(nm, e). \<lparr>Name = nm, IsDir = (e = Dir)\<rparr>) (children w p) in
                     if n \<le> 0 then (all, None)
                     else if all = [] then ([], Some EOF)
                     else (take (nat n) all, None))
                | Some (File c) \<Rightarrow> ([], Some ENOTDIR)
                | None \<Rightarrow> ([], Some ENOENT))))"

definition File_Readdirnames :: "os_File option \<Rightarrow> int \<Rightarrow> world \<Rightarrow> string list \<times> errno option" where
  "File_Readdirnames f n w = (case File_Readdir f n w of (infos, err) \<Rightarrow> (map Name infos, err))"

definition os_MkdirAll :: "string \<Rightarrow> nat \<Rightarrow> world \<Rightarrow> errno option \<times> world" where
  "os_MkdirAll name perm w = (if name = [] then (Some ENOENT, w) else mkdir_all (components name) w)"

definition os_RemoveAll :: "string \<Rightarrow> world \<Rightarrow> errno option \<times> world" where
  "os_RemoveAll name w = (if name = [] then (None, w) else remove_all (components name) w)"



text \<open>
  \<open>path.Join\<close> and \<open>filepath.Join\<close> ignore empty elements and put the separator between
  the others (\<open>/\<close> for package \<open>path\<close>, \<open>\\<close> for \<open>filepath\<close> on Windows). The cleaning of
  the result is the resolution of the path by the model.
\<close>

definition path_Join :: "string \<Rightarrow> string \<Rightarrow> string" where
  "path_Join a b = (if a = [] then b else if b = [] then a else a @ ''/'' @ b)"

definition filepath_Join :: "string \<Rightarrow> string \<Rightarrow> string" where
  "filepath_Join a b = (if a = [] then b else if b = [] then a else a @ backslash @ b)"

section \<open>File and folder utilities\<close>

text \<open>
  The functions below follow \<open>sys.go\<close> statement by statement. A deferred \<open>Close\<close> is
  left out: its result is dropped by the source and it does not change the file table.
\<close>

text \<open>\<open>Exists(name)\<close>: false in the one branch where \<open>os.Stat\<close> fails with a not-exist error.\<close>

definition Exists :: "string \<Rightarrow> world \<Rightarrow> bool" where
  "Exists name w =
     (case os_Stat name w of
        Inl err \<Rightarrow> (if os_IsNotExist err then False else True)
      | Inr fi \<Rightarrow> True)"

text \<open>
  \<open>CreateFile(path, content)\<close>: the error of \<open>WriteString\<close> is assigned to \<open>err\<close>, and
  \<open>err\<close> is assigned again by \<open>file.Sync()\<close> before it is looked at.
\<close>

definition CreateFile :: "string \<Rightarrow> string \<Rightarrow> world \<Rightarrow> errno option \<times> world" where
  "CreateFile path content w =
     (case os_Create path w of
        (Inl err, w1) \<Rightarrow> (Some err, w1)
      | (Inr file, w1) \<Rightarrow>
          (case File_WriteString file content w1 of
             ((n, err), w2) \<Rightarrow>
               (case File_Sync file w2 of
                  Some err \<Rightarrow> (Some err, w2)
                | None \<Rightarrow> (None, w2))))"

definition CopyFile :: "string \<Rightarrow> string \<Rightarrow> world \<Rightarrow> errno option \<times> world" where
  "CopyFile src dest w =
     (case os_Open src w of
        Inl err \<Rightarrow> (Some err, w)
      | Inr srcFile \<Rightarrow>
          (case os_Create dest w of
             (Inl err, w1) \<Rightarrow> (Some err, w1)
           | (Inr destFile, w1) \<Rightarrow>
               (case io_Copy destFile srcFile w1 of
                  ((n, Some err), w2) \<Rightarrow> (Some err, w2)
                | ((n, None), w2) \<Rightarrow>
                    (case File_Sync destFile w2 of
                       Some err \<Rightarrow> (Some err, w2)
                     | None \<Rightarrow> (None, w2)))))"

text \<open>
  \<open>CopyFolder(source, dest)\<close> calls itself on every subdirectory it reads, after it has
  created \<open>dest\<close>; when \<open>dest\<close> lies inside \<open>source\<close> the recursion meets the directory it
  has just made and goes on. The recursion depth is therefore bounded by fuel, and
  \<^const>\<open>None\<close> means that the fuel did not suffice. The loop over the directory entries
  takes the recursive call as its first argument.

  \<open>folder, _ := os.Open(source)\<close> drops the error and leaves \<open>folder\<close> nil when the call
  fails; the error of \<open>folder.Readdir(-1)\<close> is assigned to the named result \<open>err\<close> and not
  looked at before the loop, and the function ends with \<open>return nil\<close>.
\<close>

fun CopyFolder_objects ::
  "(string \<Rightarrow> string \<Rightarrow> world \<Rightarrow> (errno option \<times> world) option) \<Rightarrow>
   string \<Rightarrow> string \<Rightarrow> FileInfo list \<Rightarrow> world \<Rightarrow> (errno option \<times> world) option" where
  "CopyFolder_objects rec source dest [] w = Some (None, w)"
| "CopyFolder_objects rec source dest (object # objects) w =
     (let sourceFile = path_Join source (Name object);
          destFile = path_Join dest (Name object)
      in if IsDir object
         then (case rec sourceFile destFile w of
                 None \<Rightarrow> None
               | Some (Some err, w1) \<Rightarrow> Some (Some err, w1)
               | Some (None, w1) \<Rightarrow> CopyFolder_objects rec source dest objects w1)
         else (case CopyFile sourceFile destFile w of
                 (Some err, w1) \<Rightarrow> Some (Some err, w1)
               | (None, w1) \<Rightarrow> CopyFolder_objects rec source dest objects w1))"

fun CopyFolder :: "nat \<Rightarrow> string \<Rightarrow> string \<Rightarrow> world \<Rightarrow> (errno option \<times> world) option" where
  "CopyFolder 0 source dest w = None"
| "CopyFolder (Suc fuel) source dest w =
     (case os_MkdirAll dest 777 w of
        (Some err, w1) \<Rightarrow> Some (Some err, w1)
      | (None, w1) \<Rightarrow>
          (let folder = (case os_Open source w1 of Inl e \<Rightarrow> None | Inr f \<Rightarrow> Some f);
               objects = fst (File_Readdir folder (- 1) w1)
           in CopyFolder_objects (CopyFolder fuel) source dest objects w1))"

text \<open>\<open>RemoveContents(dir)\<close>: the loop returns at the first \<open>os.RemoveAll\<close> that fails.\<close>

fun RemoveContents_loop :: "string \<Rightarrow> string list \<Rightarrow> world \<Rightarrow> errno option \<times> world" where
  "RemoveContents_loop dir [] w = (None, w)"
| "RemoveContents_loop dir (name # names) w =
     (case os_RemoveAll (filepath_Join dir name) w of
        (Some err, w1) \<Rightarrow> (Some err, w1)
      | (None, w1) \<Rightarrow> RemoveContents_loop dir names w1)"

definition RemoveContents :: "string \<Rightarrow> world \<Rightarrow> errno option \<times> world" where
  "RemoveContents dir w =
     (case os_Open dir w of
        Inl err \<Rightarrow> (Some err, w)
      | Inr d \<Rightarrow>
          (case File_Readdirnames (Some d) (- 1) w of
             (names, Some err) \<Rightarrow> (Some err, w)
           | (names, None) \<Rightarrow> RemoveContents_loop dir names w))"

text \<open>\<open>CreateFolderCheck(path)\<close> returns \<open>("", err)\<close> or \<open>(path, nil)\<close>.\<close>

definition CreateFolderCheck :: "string \<Rightarrow> world \<Rightarrow> (string \<times> errno option) \<times> world" where
  "CreateFolderCheck path w =
     (case os_MkdirAll path 777 w of
        (Some err, w1) \<Rightarrow> (([], Some err), w1)
      | (None, w1) \<Rightarrow> ((path, None), w1))"



section \<open>Shortcuts\<close>

text \<open>
  The shortcut descriptor of \<open>sys.go\<close>, and a model of the automation objects that
  \<open>CreateShortcut\<close> drives through \<open>go-ole\<close>. The world holds the shortcut files saved so
  far (each a table from property names to values), the faults, and the trace of the
  calls made. \<open>WshShell.CreateShortcut(path)\<close> returns an object with the properties of
  the file at \<open>path\<close> when there is one, and with none otherwise; \<open>PutProperty\<close> stores
  a value in the object; \<open>Save\<close> writes the object to its path.
\<close>

record WindowsShortcutProperty =
  Value :: string
  Clear :: bool

record WindowsShortcut =
  ShortcutPath :: string
  TargetPath :: string
  Arguments :: WindowsShortcutProperty
  Description :: WindowsShortcutProperty
  IconLocation :: WindowsShortcutProperty
  WorkingDirectory :: WindowsShortcutProperty

datatype olecall = CoInitializeEx | CreateObject string | QueryInterface | CallMethod string
  | PutProperty string string

record ole_world =
  links :: "(string \<times> (string \<times> string) list) list"
  ole_faults :: "olecall \<Rightarrow> errno option"
  trace :: "olecall list"

record shortcut_object =
  so_path :: string
  so_props :: "(string \<times> string) list"

definition ole_call :: "olecall \<Rightarrow> ole_world \<Rightarrow> errno option \<times> ole_world" where
  "ole_call c ow = (ole_faults ow c, ow\<lparr>trace := trace ow @ [c]\<rparr>)"

definition oleutil_CreateObject :: "string \<Rightarrow> ole_world \<Rightarrow> errno option \<times> ole_world" where
  "oleutil_CreateObject progid ow = ole_call (CreateObject progid) ow"

definition ole_QueryInterface :: "ole_world \<Rightarrow> errno option \<times> ole_world" where
  "ole_QueryInterface ow = ole_call QueryInterface ow"

definition wshell_CreateShortcut :: "string \<Rightarrow> ole_world \<Rightarrow> (errno + shortcut_object) \<times> ole_world" where
  "wshell_CreateShortcut path ow =
     (case ole_call (CallMethod ''CreateShortcut'') ow of
        (Some e, ow1) \<Rightarrow> (Inl e, ow1)
      | (None, ow1) \<Rightarrow>
          (Inr \<lparr>so_path = path,
                so_props = (case map_of (links ow1) path of Some ps \<Rightarrow> ps | None \<Rightarrow> [])\<rparr>, ow1))"

definition oleutil_PutProperty ::
  "shortcut_object \<Rightarrow> string \<Rightarrow> string \<Rightarrow> ole_world \<Rightarrow> (shortcut_object \<times> errno option) \<times> ole_world" where
  "oleutil_PutProperty obj name v ow =
     (case ole_call (PutProperty name v) ow of
        (Some e, ow1) \<Rightarrow> ((obj, Some e), ow1)
      | (None, ow1) \<Rightarrow> ((obj\<lparr>so_props := AList.update name v (so_props obj)\<rparr>, None), ow1))"

definition shortcut_Save :: "shortcut_object \<Rightarrow> ole_world \<Rightarrow> errno option \<times> ole_world" where
  "shortcut_Save obj ow =
     (case ole_call (CallMethod ''Save'') ow of
        (Some e, ow1) \<Rightarrow> (Some e, ow1)
      | (None, ow1) \<Rightarrow> (None, ow1\<lparr>links := AList.update (so_path obj) (so_props obj) (links ow1)\<rparr>))"

text \<open>
  One of the four blocks
  \<open>if p.Value != "" || p.Clear { oleutil.PutProperty(idispatch, name, p.Value) }\<close>;
  the result and the error of \<open>PutProperty\<close> are dropped, as for \<open>TargetPath\<close>.
\<close>

definition put_property :: "string \<Rightarrow> string \<Rightarrow> shortcut_object \<times> ole_world \<Rightarrow> shortcut_object \<times> ole_world" where
  "put_property name v s =
     (case oleutil_PutProperty (fst s) name v (snd s) of ((obj, err), ow1) \<Rightarrow> (obj, ow1))"

definition put_optional ::
  "string \<Rightarrow> WindowsShortcutProperty \<Rightarrow> shortcut_object \<times> ole_world \<Rightarrow> shortcut_object \<times> ole_world" where
  "put_optional name p s = (if Value p \<noteq> [] \<or> Clear p then put_property name (Value p) s else s)"

text \<open>
  \<open>CreateShortcut(shortcut)\<close>. The error of \<open>CoInitializeEx\<close> is dropped. The deferred
  calls (\<open>UnlockOSThread\<close>, \<open>CoUninitialize\<close>, \<open>Release\<close>) and the pinning of the thread
  have no part in the model.
\<close>

definition CreateShortcut :: "WindowsShortcut \<Rightarrow> ole_world \<Rightarrow> errno option \<times> ole_world" where
  "CreateShortcut shortcut ow =
     (case oleutil_CreateObject ''WScript.Shell'' (snd (ole_call CoInitializeEx ow)) of
        (Some err, ow1) \<Rightarrow> (Some err, ow1)
      | (None, ow1) \<Rightarrow>
          (case ole_QueryInterface ow1 of
             (Some err, ow2) \<Rightarrow> (Some err, ow2)
           | (None, ow2) \<Rightarrow>
               (case wshell_CreateShortcut (ShortcutPath shortcut) ow2 of
                  (Inl err, ow3) \<Rightarrow> (Some err, ow3)
                | (Inr idispatch, ow3) \<Rightarrow>
                    (case put_optional ''WorkingDirectory'' (WorkingDirectory shortcut)
                            (put_optional ''IconLocation'' (IconLocation shortcut)
                              (put_optional ''Description'' (Description shortcut)
                                (put_optional ''Arguments'' (Arguments shortcut)
                                  (put_property ''TargetPath'' (TargetPath shortcut)
                                    (idispatch, ow3))))) of
                       (obj, ow4) \<Rightarrow> shortcut_Save obj ow4))))"

text \<open>The calls \<open>PutProperty\<close> that one optional property gives rise to.\<close>

definition optional_put :: "string \<Rightarrow> WindowsShortcutProperty \<Rightarrow> olecall list" where
  "optional_put name p = (if Value p \<noteq> [] \<or> Clear p then [PutProperty name (Value p)] else [])"

text \<open>The value that the shortcut file at \<open>path\<close> holds for a property, if any.\<close>

definition saved_property :: "ole_world \<Rightarrow> string \<Rightarrow> string \<Rightarrow> string option" where
  "saved_property ow path name =
     (case map_of (links ow) path of None \<Rightarrow> None | Some ps \<Rightarrow> map_of ps name)"

section \<open>The cleaning step of the build script\<close>

text \<open>
  The last step of target \<open>release.app\<close> in \<open>build-app.xml\<close>:
  \<^verbatim>\<open><if> <equals arg1="${debug}" arg2="false"/> <then>\<close>
  \<^verbatim>\<open>  <delete dir="${build.path}"/> <delete dir="${setup.path}"/>\<close>
  \<^verbatim>\<open>  <delete includeemptydirs="true"> <fileset dir="${tmp.path}">\<close>
  \<^verbatim>\<open>    <exclude name="version.dat"/> </fileset> </delete> </then> </if>\<close>
  The properties are a table from names to strings, given from outside. Ant replaces
  \<open>${name}\<close> by the value of the property and leaves the text as it is when the property
  is not set. A task that fails ends the build (\<open>failonerror\<close> is on by default), which is
  \<^const>\<open>Inl\<close>; the world a failed build leaves is not described.
\<close>

definition expand_property :: "(string \<Rightarrow> string option) \<Rightarrow> string \<Rightarrow> string" where
  "expand_property props name = (case props name of Some v \<Rightarrow> v | None \<Rightarrow> ''${'' @ name @ ''}'')"







section \<open>Example worlds\<close>

text \<open>A world with one configuration file of three lines and no fault.\<close>

definition ini_text :: string where
  "ini_text = ''A=1'' @ newline @ ''B=2'' @ newline @ ''C=3''"

definition ini_world :: world where
  "ini_world = \<lparr>files = [([''app.ini''], File ini_text)],
                faults = (\<lambda>op p. None)\<rparr>"

text \<open>The same world on a full disk: every write fails with \<open>ENOSPC\<close>.\<close>

definition full_disk :: world where
  "full_disk = ini_world\<lparr>faults := (\<lambda>op p. if op = OpWrite then Some ENOSPC else None)\<rparr>"

text \<open>The path \<open>apps\data\<close>.\<close>

definition data_dir :: string where
  "data_dir = ''apps'' @ backslash @ ''data''"

text \<open>
  A directory \<open>tmp\<close> with a file, a subdirectory holding a file and another file, next
  to a file outside; and the same world where the file in the subdirectory is locked.
\<close>

definition tree_world :: world where
  "tree_world =
     \<lparr>files = [([''tmp''], Dir), ([''tmp'', ''a.txt''], File ''1''), ([''tmp'', ''sub''], Dir),
               ([''tmp'', ''sub'', ''b.txt''], File ''2''), ([''tmp'', ''z.log''], File ''3''),
               ([''keep''], File ''k'')],
      faults = (\<lambda>op p. None)\<rparr>"

definition locked_world :: world where
  "locked_world =
     tree_world\<lparr>faults := (\<lambda>op p. if op = OpRemove \<and> p = [''tmp'', ''sub'', ''b.txt'']
                                   then Some EACCES else None)\<rparr>"

text \<open>
  A world with one shortcut file, and a descriptor that clears its arguments, leaves its
  description alone and sets an icon.
\<close>

definition lnk_world :: ole_world where
  "lnk_world =
     \<lparr>links = [(''app.lnk'', [(''Arguments'', ''--old''), (''Description'', ''Old'')])],
      ole_faults = (\<lambda>c. None), trace = []\<rparr>"

definition lnk_shortcut :: WindowsShortcut where
  "lnk_shortcut =
     \<lparr>ShortcutPath = ''app.lnk'', TargetPath = ''app.exe'',
      Arguments = \<lparr>Value = [], Clear = True\<rparr>,
      Description = \<lparr>Value = [], Clear = False\<rparr>,
      IconLocation = \<lparr>Value = ''app.ico'', Clear = False\<rparr>,
      WorkingDirectory = \<lparr>Value = [], Clear = False\<rparr>\<rparr>"

text \<open>
  A build that is not a debug build, with a build directory, a setup directory and a temp
  directory that holds \<open>version.dat\<close>, a download and a subdirectory.
\<close>

definition release_props :: "string \<Rightarrow> string option" where
  "release_props =
     [''debug'' \<mapsto> ''false'', ''build.path'' \<mapsto> ''build'', ''setup.path'' \<mapsto> ''setup'',
      ''tmp.path'' \<mapsto> ''tmp'']"


section \<open>Properties of the path utilities\<close>

lemma PathJoin_from_unfold:
  "PathJoin_from i elem =
     (if i < length elem
      then (if elem ! i \<noteq> [] then strings_Join (drop i elem) backslash
            else PathJoin_from (Suc i) elem)
      else [])"
  by (rule PathJoin_from.simps)

declare PathJoin_from.simps [simp del]
declare mkdir_all.simps [simp del]

lemma PathJoin_from_dropWhile:
  "PathJoin_from i elem = strings_Join (dropWhile (\<lambda>e. e = []) (drop i elem)) backslash"
proof (induction i elem rule: PathJoin_from.induct)
  case (1 i elem)
  show ?case
  proof (cases "i < length elem")
    case False
    then show ?thesis by (simp add: PathJoin_from_unfold [of i elem])
  next
    case True
    then have d: "drop i elem = elem ! i # drop (Suc i) elem"
      by (simp add: Cons_nth_drop_Suc)
    show ?thesis
    proof (cases "elem ! i = []")
      case True
      with \<open>i < length elem\<close> "1.IH" d show ?thesis
        by (simp add: PathJoin_from_unfold [of i elem])
    next
      case False
      with \<open>i < length elem\<close> d show ?thesis
        by (simp add: PathJoin_from_unfold [of i elem])
    qed
  qed
qed

lemma PathJoin_dropWhile:
  "PathJoin elem = strings_Join (dropWhile (\<lambda>e. e = []) elem) backslash"
  by (simp add: PathJoin_def PathJoin_from_dropWhile)

lemma PathJoin_Nil: "PathJoin [] = []"
  by (simp add: PathJoin_dropWhile)

lemma PathJoin_Cons:
  "PathJoin (e # es) = (if e = [] then PathJoin es else strings_Join (e # es) backslash)"
  by (simp add: PathJoin_dropWhile)

lemma length_strings_Join:
  "length (strings_Join (e # es) sep) = sum_list (map length (e # es)) + length es * length sep"
  by (induction es arbitrary: e) auto

lemma strings_Join_append:
  "strings_Join (a # as @ b # bs) sep = strings_Join (a # as) sep @ sep @ strings_Join (b # bs) sep"
  by (induction as arbitrary: a) auto

text \<open>
  Claim C2. For every list of segments, \<open>PathJoin\<close> skips the leading empty segments and
  joins the first non-empty segment and all segments after it with a backslash;
  \<open>PathJoin("", "", "a", "b")\<close> is \<open>a\b\<close>, and the result is the empty string when
  every segment is empty or there is no segment.
\<close>

theorem PathJoin_skips_leading_empty:
  "((\<forall>e \<in> set pre. e = []) \<and> x \<noteq> [] \<longrightarrow>
       PathJoin (pre @ x # rest) = strings_Join (x # rest) backslash)
   \<and> PathJoin ['''', '''', ''a'', ''b''] = ''a'' @ backslash @ ''b''
   \<and> ((\<forall>e \<in> set elem. e = []) \<longrightarrow> PathJoin elem = [])
   \<and> PathJoin [] = []"
proof -
  have skip: "PathJoin (pre @ x # rest) = strings_Join (x # rest) backslash"
    if "\<forall>e \<in> set pre. e = []" and "x \<noteq> []"
    using that by (simp add: PathJoin_dropWhile dropWhile_append3)
  have ex: "PathJoin ['''', '''', ''a'', ''b''] = ''a'' @ backslash @ ''b''"
    by (simp add: PathJoin_Cons)
  have empty: "PathJoin elem = []" if "\<forall>e \<in> set elem. e = []"
  proof -
    from that have d: "dropWhile (\<lambda>e. e = []) elem = []" by simp
    show ?thesis unfolding PathJoin_dropWhile d by simp
  qed
  from skip ex empty show ?thesis by (simp add: PathJoin_Nil)
qed

theorem PathJoin_skips_leading_empty_witness:
  "PathJoin ['''', '''', ''usr'', ''bin''] = strings_Join [''usr'', ''bin''] backslash
   \<and> PathJoin ['''', '''', ''usr'', ''bin''] = ''usr'' @ [CHR 0x5C] @ ''bin''
   \<and> PathJoin ['''', '''', ''''] = []"
  using PathJoin_skips_leading_empty [of "['''', '''']" "''usr''" "[''bin'']" "['''', '''', '''']"]
  by (simp add: backslash_def)

text \<open>
  Claim C9. Only the empty segments before the first non-empty segment are skipped. Once
  the first segment is not empty, every later segment is kept, the empty ones too, and
  each brings its own separator: an empty segment between two others gives two
  backslashes in a row, so \<open>PathJoin("a", "", "b")\<close> is \<open>a\\b\<close> and not \<open>a\b\<close>.
\<close>

theorem PathJoin_keeps_inner_empty:
  assumes "x \<noteq> []"
  shows "PathJoin (x # rest) = strings_Join (x # rest) backslash
    \<and> length (PathJoin (x # rest)) = sum_list (map length (x # rest)) + length rest
    \<and> PathJoin (x # ys @ [] # z # zs) =
           PathJoin (x # ys) @ backslash @ backslash @ strings_Join (z # zs) backslash
    \<and> PathJoin [''a'', '''', ''b''] = ''a'' @ backslash @ backslash @ ''b''
    \<and> PathJoin [''a'', '''', ''b''] \<noteq> ''a'' @ backslash @ ''b''"
proof -
  from assms have j: "PathJoin (x # rest) = strings_Join (x # rest) backslash" for rest
    by (simp add: PathJoin_Cons)
  have l: "length (PathJoin (x # rest)) = sum_list (map length (x # rest)) + length rest"
    unfolding j length_strings_Join by (simp add: backslash_def)
  have "strings_Join (x # ys @ [] # z # zs) backslash =
          strings_Join (x # ys) backslash @ backslash @ strings_Join ([] # z # zs) backslash"
    by (rule strings_Join_append)
  then have m: "PathJoin (x # ys @ [] # z # zs) =
           PathJoin (x # ys) @ backslash @ backslash @ strings_Join (z # zs) backslash"
    unfolding j by simp
  have e1: "PathJoin [''a'', '''', ''b''] = ''a'' @ backslash @ backslash @ ''b''"
    by (simp add: PathJoin_Cons)
  have e2: "PathJoin [''a'', '''', ''b''] \<noteq> ''a'' @ backslash @ ''b''"
    by (simp add: PathJoin_Cons backslash_def)
  from j l m e1 e2 show ?thesis by blast
qed

theorem PathJoin_keeps_inner_empty_witness:
  "PathJoin [''C:'', '''', ''app'', ''''] = ''C:'' @ [CHR 0x5C, CHR 0x5C] @ ''app'' @ [CHR 0x5C]
   \<and> length (PathJoin [''C:'', '''', ''app'', '''']) = 8"
  using PathJoin_keeps_inner_empty [of "''C:''" "['''', ''app'', '''']"]
  by (simp add: backslash_def)

section \<open>Properties of the file utilities\<close>












lemma components_app_ini: "components ''app.ini'' = [''app.ini'']"
  by (simp add: components_def IsPathSeparator_def)





text \<open>
  Claim C5. \<open>Exists\<close> is false exactly when \<open>os.Stat\<close> fails with an error that
  \<open>os.IsNotExist\<close> accepts; it is true when \<open>os.Stat\<close> succeeds, and true when \<open>os.Stat\<close>
  fails with any other error.
\<close>

theorem Exists_false_iff_not_exist:
  "(Exists name w = False \<longleftrightarrow> (\<exists>err. os_Stat name w = Inl err \<and> os_IsNotExist err))
   \<and> (os_Stat name w = Inr fi \<longrightarrow> Exists name w)
   \<and> (os_Stat name w = Inl err \<and> \<not> os_IsNotExist err \<longrightarrow> Exists name w)"
  by (auto simp: Exists_def split: sum.splits)

theorem Exists_false_iff_not_exist_witness:
  "Exists ''app.ini'' ini_world
   \<and> \<not> Exists ''missing.txt'' ini_world
   \<and> os_Stat ''locked'' (ini_world\<lparr>faults := (\<lambda>op p. if op = OpStat then Some EACCES else None)\<rparr>)
       = Inl EACCES
   \<and> Exists ''locked'' (ini_world\<lparr>faults := (\<lambda>op p. if op = OpStat then Some EACCES else None)\<rparr>)"
proof -
  let ?wl = "ini_world\<lparr>faults := (\<lambda>op p. if op = OpStat then Some EACCES else None)\<rparr>"
  have 1: "os_Stat ''app.ini'' ini_world = Inr \<lparr>Name = ''app.ini'', IsDir = False\<rparr>"
    by (simp add: os_Stat_def sys_stat_def entry_at_def ini_world_def components_app_ini info_of_def)
  have 2: "os_Stat ''missing.txt'' ini_world = Inl ENOENT"
    by (simp add: os_Stat_def sys_stat_def entry_at_def ini_world_def components_def
          IsPathSeparator_def)
  have 3: "os_Stat ''locked'' ?wl = Inl EACCES"
    by (simp add: os_Stat_def sys_stat_def)
  have n: "\<not> os_IsNotExist EACCES" "os_IsNotExist ENOENT" by (simp_all add: os_IsNotExist_def)
  from Exists_false_iff_not_exist [of "''app.ini''" ini_world "\<lparr>Name = ''app.ini'', IsDir = False\<rparr>" EACCES]
    Exists_false_iff_not_exist [of "''missing.txt''" ini_world "\<lparr>Name = [], IsDir = False\<rparr>" ENOENT]
    Exists_false_iff_not_exist [of "''locked''" ?wl "\<lparr>Name = [], IsDir = False\<rparr>" EACCES]
    1 2 3 n
  show ?thesis by simp
qed

section \<open>Errors that the utilities drop\<close>

lemma CreateFile_drops_write_error:
  assumes "os_Create path w = (Inr f, w1)"
    and "File_WriteString f content w1 = ((n, Some e), w2)"
    and "File_Sync f w2 = None"
  shows "CreateFile path content w = (None, w2)"
  using assms by (simp add: CreateFile_def)

lemma CopyFolder_drops_open_error:
  assumes "os_MkdirAll dest 777 w = (None, w1)"
    and "os_Open source w1 = Inl e"
  shows "CopyFolder (Suc fuel) source dest w = Some (None, w1)"
  using assms by (simp add: File_Readdir_def)

lemma components_simple [simp]:
  "components ''out.txt'' = [''out.txt'']"
  "components ''nosuch'' = [''nosuch'']"
  "components ''dst'' = [''dst'']"
  by (simp_all add: components_def IsPathSeparator_def)

text \<open>
  Claim C1 says that no utility drops an error of the operating system, that
  \<open>CopyFolder\<close> returns the error of opening the source directory and that
  \<open>CreateFile\<close> returns an error whenever the write fails. The code does neither. On a
  full disk \<open>CreateFile("out.txt", "data")\<close> creates the file, the write fails with
  \<open>ENOSPC\<close>, \<open>Sync\<close> succeeds and the function returns nil, leaving an empty file. And
  \<open>CopyFolder("nosuch", "dst")\<close> creates \<open>dst\<close>, fails to open the missing source and
  returns nil at any recursion depth.
\<close>

theorem errors_dropped_by_CreateFile_and_CopyFolder:
  "os_Create ''out.txt'' full_disk
     = (Inr (FileHandle [''out.txt'']),
        full_disk\<lparr>files := [([''app.ini''], File ini_text), ([''out.txt''], File [])]\<rparr>)
   \<and> File_WriteString (FileHandle [''out.txt'']) ''data''
        (full_disk\<lparr>files := [([''app.ini''], File ini_text), ([''out.txt''], File [])]\<rparr>)
     = ((0, Some ENOSPC),
        full_disk\<lparr>files := [([''app.ini''], File ini_text), ([''out.txt''], File [])]\<rparr>)
   \<and> CreateFile ''out.txt'' ''data'' full_disk
     = (None, full_disk\<lparr>files := [([''app.ini''], File ini_text), ([''out.txt''], File [])]\<rparr>)
   \<and> os_Open ''nosuch'' (ini_world\<lparr>files := [([''app.ini''], File ini_text), ([''dst''], Dir)]\<rparr>)
     = Inl ENOENT
   \<and> (\<forall>fuel. CopyFolder (Suc fuel) ''nosuch'' ''dst'' ini_world
     = Some (None, ini_world\<lparr>files := [([''app.ini''], File ini_text), ([''dst''], Dir)]\<rparr>))"
proof -
  let ?w1 = "full_disk\<lparr>files := [([''app.ini''], File ini_text), ([''out.txt''], File [])]\<rparr>"
  have c: "os_Create ''out.txt'' full_disk = (Inr (FileHandle [''out.txt'']), ?w1)"
    by (simp add: os_Create_def Let_def entry_at_def full_disk_def ini_world_def)
  have wr: "File_WriteString (FileHandle [''out.txt'']) ''data'' ?w1 = ((0, Some ENOSPC), ?w1)"
    by (simp add: File_WriteString_def file_write_def full_disk_def)
  have sy: "File_Sync (FileHandle [''out.txt'']) ?w1 = None"
    by (simp add: File_Sync_def full_disk_def)
  have cf: "CreateFile ''out.txt'' ''data'' full_disk = (None, ?w1)"
    using c wr sy by (rule CreateFile_drops_write_error)
  let ?w2 = "ini_world\<lparr>files := [([''app.ini''], File ini_text), ([''dst''], Dir)]\<rparr>"
  have mk: "os_MkdirAll ''dst'' 777 ini_world = (None, ?w2)"
    by (simp add: os_MkdirAll_def mkdir_all.simps [of "[''dst'']"] sys_stat_def sys_mkdir_def
          entry_at_def ini_world_def)
  have op: "os_Open ''nosuch'' ?w2 = Inl ENOENT"
    by (simp add: os_Open_def entry_at_def ini_world_def)
  have "CopyFolder (Suc fuel) ''nosuch'' ''dst'' ini_world = Some (None, ?w2)" for fuel
    using mk op by (rule CopyFolder_drops_open_error)
  with c wr cf op show ?thesis by blast
qed

section \<open>Creating folders\<close>

lemma sys_stat_Inr:
  "sys_stat op p w = Inr e \<longleftrightarrow> faults w op p = None \<and> entry_at w p = Some e"
  by (auto simp: sys_stat_def split: option.splits)

lemma sys_mkdir_faults: "sys_mkdir p w = (r, w') \<Longrightarrow> faults w' = faults w"
  by (auto simp: sys_mkdir_def split: option.splits entry.splits if_splits)

lemma sys_mkdir_fail: "sys_mkdir p w = (Some e, w') \<Longrightarrow> w' = w"
  by (auto simp: sys_mkdir_def split: option.splits entry.splits if_splits)

lemma sys_mkdir_ok:
  "sys_mkdir p w = (None, w') \<Longrightarrow>
     p \<noteq> [] \<and> entry_at w p = None \<and> entry_at w (butlast p) = Some Dir \<and>
     w' = w\<lparr>files := files w @ [(p, Dir)]\<rparr>"
  by (auto simp: sys_mkdir_def entry_at_def split: option.splits entry.splits if_splits)

lemma entry_at_snoc:
  "entry_at w p = None \<Longrightarrow>
     entry_at (w\<lparr>files := files w @ [(p, Dir)]\<rparr>) q = (if q = p then Some Dir else entry_at w q)"
  by (auto simp: entry_at_def map_add_def split: option.splits if_splits)

lemma mkdir_all_faults: "mkdir_all p w = (r, w') \<Longrightarrow> faults w' = faults w"
proof (induction p w arbitrary: r w' rule: mkdir_all.induct)
  case (1 p w)
  show ?case
  proof (cases "sys_stat OpStat p w")
    case (Inr e)
    with "1.prems" show ?thesis
      by (subst (asm) mkdir_all.simps) (auto split: if_splits)
  next
    case (Inl x)
    obtain r1 w1 where par: "(if 1 < length p then mkdir_all (butlast p) w else (None, w)) = (r1, w1)"
      by (cases "if 1 < length p then mkdir_all (butlast p) w else (None, w)") auto
    have f1: "faults w1 = faults w"
    proof (cases "1 < length p")
      case True
      with par "1.IH" [OF Inl True] show ?thesis by simp
    next
      case False
      with par show ?thesis by simp
    qed
    from "1.prems" Inl par f1 show ?thesis
      by (subst (asm) mkdir_all.simps)
         (auto split: option.splits prod.splits sum.splits entry.splits dest: sys_mkdir_faults)
  qed
qed

lemma parents_exist_snoc:
  assumes "parents_exist w" and "entry_at w p = None" and "p \<noteq> []"
    and "entry_at w (butlast p) = Some Dir"
  shows "parents_exist (w\<lparr>files := files w @ [(p, Dir)]\<rparr>)"
proof -
  have "entry_at (w\<lparr>files := files w @ [(p, Dir)]\<rparr>) q = Some Dir" if "entry_at w q = Some Dir" for q
    using that assms(2) by (auto simp: entry_at_snoc)
  with assms show ?thesis
    by (auto simp: parents_exist_def list_all_iff)
qed

lemma sys_mkdir_parents:
  "sys_mkdir p w = (r, w') \<Longrightarrow> parents_exist w \<Longrightarrow> parents_exist w'"
  by (cases r) (auto dest: sys_mkdir_ok sys_mkdir_fail intro: parents_exist_snoc)

lemma mkdir_all_props:
  "mkdir_all p w = (r, w') \<Longrightarrow>
     (parents_exist w \<longrightarrow> parents_exist w') \<and> (r = None \<longrightarrow> entry_at w' p = Some Dir)"
proof (induction p w arbitrary: r w' rule: mkdir_all.induct)
  case (1 p w)
  show ?case
  proof (cases "sys_stat OpStat p w")
    case (Inr e)
    with "1.prems" show ?thesis
      by (subst (asm) mkdir_all.simps) (auto split: if_splits simp: sys_stat_Inr)
  next
    case (Inl x)
    obtain r1 w1 where par: "(if 1 < length p then mkdir_all (butlast p) w else (None, w)) = (r1, w1)"
      by (cases "if 1 < length p then mkdir_all (butlast p) w else (None, w)") auto
    have p1: "parents_exist w \<longrightarrow> parents_exist w1"
    proof (cases "1 < length p")
      case True
      with par "1.IH" [OF Inl True] show ?thesis by simp
    next
      case False
      with par show ?thesis by simp
    qed
    show ?thesis
    proof (cases r1)
      case (Some err)
      with "1.prems" Inl par p1 show ?thesis
        by (subst (asm) mkdir_all.simps) auto
    next
      case None
      obtain r2 w2 where mk: "sys_mkdir p w1 = (r2, w2)" by (cases "sys_mkdir p w1") auto
      from mk p1 have p2: "parents_exist w \<longrightarrow> parents_exist w2"
        by (auto dest: sys_mkdir_parents)
      show ?thesis
      proof (cases r2)
        case None
        from mk None have "entry_at w2 p = Some Dir"
          by (auto dest!: sys_mkdir_ok simp: entry_at_snoc)
        with "1.prems" Inl par \<open>r1 = None\<close> mk None p2 show ?thesis
          by (subst (asm) mkdir_all.simps) auto
      next
        case (Some err)
        with "1.prems" Inl par \<open>r1 = None\<close> mk p2 show ?thesis
          by (subst (asm) mkdir_all.simps)
             (auto split: sum.splits entry.splits simp: sys_stat_Inr)
      qed
    qed
  qed
qed

lemma parents_exist_prefix:
  "parents_exist w \<Longrightarrow> entry_at w p \<noteq> None \<Longrightarrow> strict_prefix q p \<Longrightarrow> entry_at w q = Some Dir"
proof (induction p arbitrary: q rule: rev_induct)
  case Nil
  then show ?case by simp
next
  case (snoc x ps)
  from snoc.prems(2) obtain e where "map_of (files w) (ps @ [x]) = Some e"
    by (auto simp: entry_at_def)
  then have "(ps @ [x], e) \<in> set (files w)" by (rule map_of_SomeD)
  with snoc.prems(1) have par: "entry_at w ps = Some Dir"
    by (auto simp: parents_exist_def list_all_iff)
  from snoc.prems(3) have "prefix q ps" by (auto simp: strict_prefix_def prefix_snoc)
  then show ?case
  proof (cases "q = ps")
    case True
    with par show ?thesis by simp
  next
    case False
    with \<open>prefix q ps\<close> have "strict_prefix q ps" by (simp add: strict_prefix_def)
    with snoc.IH [OF snoc.prems(1)] par show ?thesis by simp
  qed
qed

text \<open>
  Claim C7. \<open>CreateFolderCheck\<close> is idempotent. In a file table closed under parents and
  with no fault injected into \<open>Stat\<close> of the path: when a call returns no error, it returns
  the input path, a second call in the world it leaves returns the same path and no
  error and changes nothing, and the directory and every directory above it exist.
\<close>

theorem CreateFolderCheck_idempotent:
  assumes first: "CreateFolderCheck path w = ((r, None), w')"
    and closed: "parents_exist w"
    and stat: "faults w OpStat (components path) = None"
  shows "r = path
       \<and> CreateFolderCheck path w' = ((path, None), w')
       \<and> (\<forall>q. prefix q (components path) \<longrightarrow> entry_at w' q = Some Dir)"
proof -
  from first have ne: "path \<noteq> []" and mk: "mkdir_all (components path) w = (None, w')" and r: "r = path"
    by (auto simp: CreateFolderCheck_def os_MkdirAll_def split: prod.splits option.splits if_splits)
  from mkdir_all_props [OF mk] closed have dir: "entry_at w' (components path) = Some Dir"
    and closed': "parents_exist w'" by auto
  from mkdir_all_faults [OF mk] stat have "faults w' OpStat (components path) = None" by simp
  with dir have "sys_stat OpStat (components path) w' = Inr Dir" by (simp add: sys_stat_Inr)
  then have "mkdir_all (components path) w' = (None, w')"
    by (subst mkdir_all.simps) simp
  with ne have again: "CreateFolderCheck path w' = ((path, None), w')"
    by (simp add: CreateFolderCheck_def os_MkdirAll_def)
  have "entry_at w' q = Some Dir" if "prefix q (components path)" for q
  proof (cases "q = components path")
    case True
    with dir show ?thesis by simp
  next
    case False
    with that have "strict_prefix q (components path)" by (simp add: strict_prefix_def)
    with parents_exist_prefix [OF closed', of "components path" q] dir show ?thesis by simp
  qed
  with r again show ?thesis by blast
qed

lemma components_data_dir [simp]: "components data_dir = [''apps'', ''data'']"
  by (simp add: data_dir_def components_def IsPathSeparator_def backslash_def)

lemma data_dir_ne [simp]: "data_dir \<noteq> []"
  by (simp add: data_dir_def)

theorem CreateFolderCheck_idempotent_witness:
  "CreateFolderCheck data_dir ini_world
     = ((data_dir, None),
        ini_world\<lparr>files := [([''app.ini''], File ini_text), ([''apps''], Dir), ([''apps'', ''data''], Dir)]\<rparr>)
   \<and> CreateFolderCheck data_dir
        (ini_world\<lparr>files := [([''app.ini''], File ini_text), ([''apps''], Dir), ([''apps'', ''data''], Dir)]\<rparr>)
     = ((data_dir, None),
        ini_world\<lparr>files := [([''app.ini''], File ini_text), ([''apps''], Dir), ([''apps'', ''data''], Dir)]\<rparr>)
   \<and> entry_at (ini_world\<lparr>files := [([''app.ini''], File ini_text), ([''apps''], Dir), ([''apps'', ''data''], Dir)]\<rparr>)
        [''apps''] = Some Dir"
proof -
  let ?w' = "ini_world\<lparr>files := [([''app.ini''], File ini_text), ([''apps''], Dir), ([''apps'', ''data''], Dir)]\<rparr>"
  have first: "CreateFolderCheck data_dir ini_world = ((data_dir, None), ?w')"
    by (simp add: CreateFolderCheck_def os_MkdirAll_def
          mkdir_all.simps [of "[''apps'', ''data'']"] mkdir_all.simps [of "[''apps'']"]
          sys_stat_def sys_mkdir_def entry_at_def ini_world_def)
  have closed: "parents_exist ini_world"
    by (simp add: parents_exist_def ini_world_def entry_at_def)
  have stat: "faults ini_world OpStat (components data_dir) = None"
    by (simp add: ini_world_def)
  have pre: "prefix [''apps''] (components data_dir)" by simp
  from CreateFolderCheck_idempotent [OF first closed stat] pre first show ?thesis
    by blast
qed

section \<open>Removing the contents of a directory\<close>

lemma segments_name:
  "list_all (\<lambda>c. \<not> IsPathSeparator c) n \<Longrightarrow>
     segments cur n = (if cur @ n = [] then [] else [cur @ n])"
  by (induction n arbitrary: cur) auto

lemma segments_append_name:
  "valid_name n \<Longrightarrow> IsPathSeparator sep \<Longrightarrow>
     segments cur (s @ sep # n) = segments cur s @ [n]"
proof (induction s arbitrary: cur)
  case Nil
  then show ?case by (simp add: valid_name_def segments_name)
next
  case (Cons c cs)
  then show ?case by simp
qed

lemma components_filepath_Join:
  "valid_name n \<Longrightarrow> dir \<noteq> [] \<Longrightarrow>
     components (filepath_Join dir n) = components dir @ [n]"
  by (simp add: filepath_Join_def components_def backslash_def valid_name_def [of n]
        segments_append_name IsPathSeparator_def)

lemma map_of_filter_key:
  "map_of (filter (\<lambda>(k, v). P k) xs) k = (if P k then map_of xs k else None)"
  by (induction xs) auto

lemma entry_at_filter:
  "entry_at (w\<lparr>files := filter (\<lambda>(k, v). P k) (files w)\<rparr>) q =
     (if q = [] then Some Dir else if P q then entry_at w q else None)"
  by (simp add: entry_at_def map_of_filter_key)

lemma remove_all_faults: "remove_all p w = (r, w') \<Longrightarrow> faults w' = faults w"
  by (auto simp: remove_all_def split: list.splits)

lemma stuck_below_Cons:
  assumes "stuck_below p w = s # ss"
  shows "faults w OpRemove s \<noteq> None"
proof -
  from assms have "s \<in> set (stuck_below p w)" by simp
  then show ?thesis by (auto simp: stuck_below_def)
qed

lemma remove_all_ok:
  "remove_all p w = (None, w') \<Longrightarrow> p \<noteq> [] \<Longrightarrow>
     w' = w\<lparr>files := filter (\<lambda>(q, e). \<not> prefix p q) (files w)\<rparr>"
  by (auto simp: remove_all_def split: list.splits if_splits dest: stuck_below_Cons)

lemma remove_all_fails:
  "remove_all p w = (Some err, w') \<Longrightarrow> p \<noteq> [] \<Longrightarrow> stuck_below p w \<noteq> []"
  by (auto simp: remove_all_def split: list.splits if_splits)

lemma remove_all_frame:
  assumes "remove_all p w = (r, w')" and "\<not> prefix p q"
  shows "entry_at w' q = entry_at w q"
proof (cases "stuck_below p w")
  case Nil
  with assms show ?thesis by (auto simp: remove_all_def entry_at_def map_of_filter_key)
next
  case (Cons s ss)
  with assms have "w' = w\<lparr>files := filter (\<lambda>(k, e). \<not> prefix p k \<or> (\<exists>t \<in> set (s # ss). prefix k t)) (files w)\<rparr>"
    by (auto simp: remove_all_def)
  with assms(2) show ?thesis by (simp add: entry_at_def map_of_filter_key)
qed

text \<open>The loop, when every removal succeeds, filters the children named out of the table.\<close>

lemma RemoveContents_loop_ok:
  assumes "RemoveContents_loop dir names w = (None, w')"
    and "list_all valid_name names" and "dir \<noteq> []"
  shows "w' = w\<lparr>files := filter (\<lambda>(q, e). \<not> (\<exists>n \<in> set names. prefix (components dir @ [n]) q)) (files w)\<rparr>"
  using assms
proof (induction names arbitrary: w)
  case Nil
  then show ?case by simp
next
  case (Cons n names)
  from Cons.prems(2) have vn: "valid_name n" and vns: "list_all valid_name names" by simp_all
  have c: "components (filepath_Join dir n) = components dir @ [n]"
    using vn Cons.prems(3) by (rule components_filepath_Join)
  have jne: "filepath_Join dir n \<noteq> []"
    using Cons.prems(3) by (simp add: filepath_Join_def)
  from Cons.prems(1) jne obtain w1 where rm: "remove_all (components dir @ [n]) w = (None, w1)"
    and rest: "RemoveContents_loop dir names w1 = (None, w')"
    by (auto simp: os_RemoveAll_def c split: prod.splits option.splits)
  from remove_all_ok [OF rm] have w1: "w1 = w\<lparr>files := filter (\<lambda>(q, e). \<not> prefix (components dir @ [n]) q) (files w)\<rparr>"
    by simp
  from Cons.IH [OF rest vns Cons.prems(3)] show ?case
    unfolding w1 by (simp add: case_prod_unfold conj_commute)
qed

lemma RemoveContents_loop_append:
  "RemoveContents_loop dir pre w = (None, w1) \<Longrightarrow>
     RemoveContents_loop dir (pre @ rest) w = RemoveContents_loop dir rest w1"
  by (induction pre arbitrary: w) (auto split: prod.splits option.splits)

lemma os_Open_Inr:
  "os_Open dir w = Inr d \<Longrightarrow> dir \<noteq> [] \<and> d = FileHandle (components dir)"
  by (auto simp: os_Open_def split: if_splits option.splits)

lemma File_Readdirnames_all:
  "File_Readdirnames (Some (FileHandle p)) (- 1) w = (names, None) \<Longrightarrow>
     entry_at w p = Some Dir \<and> names = map fst (children w p)"
  by (auto simp: File_Readdirnames_def File_Readdir_def Let_def case_prod_unfold comp_def
           split: option.splits entry.splits prod.splits)

lemma children_names:
  "map fst (children w p) = map last (filter (\<lambda>q. q \<noteq> [] \<and> butlast q = p) (map fst (files w)))"
  by (simp add: children_def filter_map comp_def case_prod_unfold)

lemma children_valid:
  assumes "well_formed w"
  shows "list_all valid_name (map fst (children w p))"
proof -
  have "valid_name (last q)" if "q \<in> fst ` set (files w)" and "q \<noteq> []" for q
  proof -
    from that(1) assms have "list_all valid_name q"
      by (auto simp: well_formed_def list_all_iff)
    with that(2) show ?thesis by (simp add: list_all_iff)
  qed
  then show ?thesis by (auto simp: children_names list_all_iff)
qed

lemma children_distinct:
  assumes "well_formed w"
  shows "distinct (map fst (children w p))"
proof -
  from assms have d: "distinct (filter (\<lambda>q. q \<noteq> [] \<and> butlast q = p) (map fst (files w)))"
    by (simp add: well_formed_def)
  have "inj_on last {q. q \<noteq> [] \<and> butlast q = p}"
  proof (rule inj_onI)
    fix a b :: path
    assume "a \<in> {q. q \<noteq> [] \<and> butlast q = p}" "b \<in> {q. q \<noteq> [] \<and> butlast q = p}" "last a = last b"
    then have ne: "a \<noteq> []" "b \<noteq> []" and eq: "butlast a @ [last a] = butlast b @ [last b]"
      by simp_all
    from ne have "a = butlast a @ [last a]" "b = butlast b @ [last b]" by simp_all
    with eq show "a = b" by metis
  qed
  then have "inj_on last (set (filter (\<lambda>q. q \<noteq> [] \<and> butlast q = p) (map fst (files w))))"
    by (rule inj_on_subset) auto
  with d show ?thesis unfolding children_names by (simp add: distinct_map)
qed

lemma child_listed:
  assumes wf: "well_formed w" and ex: "entry_at w q \<noteq> None" and sp: "strict_prefix p q"
  shows "\<exists>n \<in> set (map fst (children w p)). prefix (p @ [n]) q"
proof -
  from sp obtain n rest where q: "q = p @ n # rest"
    by (auto simp: strict_prefix_def prefix_def) (metis list.exhaust)
  have "entry_at w (p @ [n]) \<noteq> None"
  proof (cases "rest = []")
    case True
    with q ex show ?thesis by simp
  next
    case False
    with q have "strict_prefix (p @ [n]) q" by (simp add: strict_prefix_def)
    with wf ex have "entry_at w (p @ [n]) = Some Dir"
      by (auto simp: well_formed_def intro: parents_exist_prefix)
    then show ?thesis by simp
  qed
  then have "p @ [n] \<in> fst ` set (files w)"
    by (auto simp: entry_at_def dest: map_of_SomeD intro: rev_image_eqI)
  then have "n \<in> set (map fst (children w p))"
    by (force simp: children_names)
  with q show ?thesis by auto
qed

lemma prefix_child_strict: "prefix (p @ [n]) q \<Longrightarrow> strict_prefix p q"
  by (auto simp: strict_prefix_def prefix_def)

lemma prefix_child_same: "prefix (p @ [n]) q \<Longrightarrow> prefix (p @ [m]) q \<Longrightarrow> n = m"
  by (auto simp: prefix_def append_eq_append_conv2 Cons_eq_append_conv)

lemma RemoveContents_success:
  assumes wf: "well_formed w" and ok: "RemoveContents dir w = (None, w')"
  shows "entry_at w (components dir) = Some Dir"
    and "entry_at w' (components dir) = Some Dir"
    and "strict_prefix (components dir) q \<Longrightarrow> entry_at w' q = None"
    and "\<not> strict_prefix (components dir) q \<Longrightarrow> entry_at w' q = entry_at w q"
proof -
  let ?cd = "components dir"
  let ?names = "map fst (children w ?cd)"
  let ?P = "\<lambda>q. \<not> (\<exists>n \<in> set ?names. prefix (?cd @ [n]) q)"
  from ok obtain d names where op: "os_Open dir w = Inr d"
    and rd: "File_Readdirnames (Some d) (- 1) w = (names, None)"
    and lp: "RemoveContents_loop dir names w = (None, w')"
    by (auto simp: RemoveContents_def split: sum.splits prod.splits option.splits)
  from os_Open_Inr [OF op] have ne: "dir \<noteq> []" and d: "d = FileHandle ?cd" by simp_all
  from File_Readdirnames_all [OF rd [unfolded d]]
  have isdir: "entry_at w ?cd = Some Dir" and names: "names = ?names" by simp_all
  from RemoveContents_loop_ok [OF lp [unfolded names] children_valid [OF wf] ne]
  have w': "w' = w\<lparr>files := filter (\<lambda>(q, e). ?P q) (files w)\<rparr>" .
  have e: "entry_at w' q = (if q = [] then Some Dir else if ?P q then entry_at w q else None)" for q
    unfolding w' by (rule entry_at_filter)
  show "entry_at w ?cd = Some Dir" by (rule isdir)
  have "?P ?cd" by (auto simp: prefix_def)
  with e [of ?cd] isdir show "entry_at w' ?cd = Some Dir" by simp
  show "entry_at w' q = None" if sp: "strict_prefix ?cd q"
  proof (cases "entry_at w q = None")
    case True
    with e [of q] sp show ?thesis by auto
  next
    case False
    from child_listed [OF wf False sp] have "\<not> ?P q" by simp
    with e [of q] sp show ?thesis by auto
  qed
  show "entry_at w' q = entry_at w q" if nsp: "\<not> strict_prefix ?cd q"
  proof -
    from nsp have "?P q" by (auto dest: prefix_child_strict)
    with e [of q] show ?thesis by (auto simp: entry_at_def)
  qed
qed

lemma RemoveContents_failure:
  assumes wf: "well_formed w" and op: "os_Open dir w = Inr d"
    and rd: "File_Readdirnames (Some d) (- 1) w = (pre @ n # post, None)"
    and lp: "RemoveContents_loop dir pre w = (None, w1)"
    and rm: "os_RemoveAll (filepath_Join dir n) w1 = (Some err, w2)"
  shows "RemoveContents dir w = (Some err, w2)"
    and "m \<in> set post \<Longrightarrow> prefix (components dir @ [m]) q \<Longrightarrow> entry_at w2 q = entry_at w q"
proof -
  let ?cd = "components dir"
  from os_Open_Inr [OF op] have ne: "dir \<noteq> []" and d: "d = FileHandle ?cd" by simp_all
  from File_Readdirnames_all [OF rd [unfolded d]]
  have names: "pre @ n # post = map fst (children w ?cd)" by simp
  from children_valid [OF wf, of ?cd] names have v: "list_all valid_name (pre @ n # post)" by simp
  from children_distinct [OF wf, of ?cd] names have dist: "distinct (pre @ n # post)" by simp
  from RemoveContents_loop_append [OF lp, of "n # post"] rm
  have "RemoveContents_loop dir (pre @ n # post) w = (Some err, w2)" by simp
  with op rd show "RemoveContents dir w = (Some err, w2)"
    by (simp add: RemoveContents_def)
  show "entry_at w2 q = entry_at w q" if m: "m \<in> set post" and pq: "prefix (?cd @ [m]) q"
  proof -
    from v have vn: "valid_name n" and vpre: "list_all valid_name pre" by simp_all
    from dist m have mn: "m \<noteq> n" and mpre: "m \<notin> set pre" by auto
    have c: "components (filepath_Join dir n) = ?cd @ [n]"
      using vn ne by (rule components_filepath_Join)
    have "filepath_Join dir n \<noteq> []" using ne by (simp add: filepath_Join_def)
    with rm have "remove_all (?cd @ [n]) w1 = (Some err, w2)"
      by (simp add: os_RemoveAll_def c)
    moreover from pq mn have "\<not> prefix (?cd @ [n]) q" by (auto dest: prefix_child_same)
    ultimately have 1: "entry_at w2 q = entry_at w1 q" by (rule remove_all_frame)
    from pq mpre have P: "\<not> (\<exists>n' \<in> set pre. prefix (?cd @ [n']) q)"
      by (auto dest: prefix_child_same)
    from RemoveContents_loop_ok [OF lp vpre ne]
    have "w1 = w\<lparr>files := filter (\<lambda>(q, e). \<not> (\<exists>n' \<in> set pre. prefix (?cd @ [n']) q)) (files w)\<rparr>" .
    then have "entry_at w1 q = (if q = [] then Some Dir
        else if \<not> (\<exists>n' \<in> set pre. prefix (?cd @ [n']) q) then entry_at w q else None)"
      by (simp only: entry_at_filter)
    with P have 2: "entry_at w1 q = entry_at w q" by (auto simp: entry_at_def)
    from 1 2 show ?thesis by simp
  qed
qed

text \<open>
  Claim C8. In a well-formed file table: when \<open>RemoveContents\<close> returns nil, the
  directory was a directory and still is one, nothing is left at any path below it
  (every immediate child is gone with all that it held), and every other path is as it
  was. When the removal of a child fails after the children listed before it were
  removed, \<open>RemoveContents\<close> returns that error in the world the failed removal left, and
  everything at or below the children listed after it is as it was before the call.
\<close>

theorem RemoveContents_removes_children:
  assumes wf: "well_formed w"
  shows "(RemoveContents dir w = (None, w') \<longrightarrow>
            entry_at w (components dir) = Some Dir
          \<and> entry_at w' (components dir) = Some Dir
          \<and> (\<forall>q. strict_prefix (components dir) q \<longrightarrow> entry_at w' q = None)
          \<and> (\<forall>q. \<not> strict_prefix (components dir) q \<longrightarrow> entry_at w' q = entry_at w q))
       \<and> (os_Open dir w = Inr d
          \<and> File_Readdirnames (Some d) (- 1) w = (pre @ n # post, None)
          \<and> RemoveContents_loop dir pre w = (None, w1)
          \<and> os_RemoveAll (filepath_Join dir n) w1 = (Some err, w2) \<longrightarrow>
            RemoveContents dir w = (Some err, w2)
          \<and> (\<forall>m \<in> set post. \<forall>q. prefix (components dir @ [m]) q \<longrightarrow>
                entry_at w2 q = entry_at w q))"
  using RemoveContents_success [OF wf, of dir w'] RemoveContents_failure [OF wf, of dir d pre n post w1 err w2]
  by blast

lemma components_tmp [simp]: "components ''tmp'' = [''tmp'']"
  by (simp add: components_def IsPathSeparator_def)

lemma components_tmp_children [simp]:
  "components (filepath_Join ''tmp'' ''a.txt'') = [''tmp'', ''a.txt'']"
  "components (filepath_Join ''tmp'' ''sub'') = [''tmp'', ''sub'']"
  "components (filepath_Join ''tmp'' ''z.log'') = [''tmp'', ''z.log'']"
  by (simp_all add: components_filepath_Join valid_name_def IsPathSeparator_def)

lemma filepath_Join_tmp_ne [simp]: "filepath_Join ''tmp'' n \<noteq> []"
  by (simp add: filepath_Join_def)

lemma well_formed_tree_world: "well_formed tree_world"
  by (simp add: well_formed_def parents_exist_def tree_world_def entry_at_def valid_name_def
        IsPathSeparator_def)

lemma well_formed_locked_world: "well_formed locked_world"
  by (simp add: well_formed_def parents_exist_def locked_world_def tree_world_def entry_at_def
        valid_name_def IsPathSeparator_def)

theorem RemoveContents_removes_children_witness:
  "RemoveContents ''tmp'' tree_world
     = (None, tree_world\<lparr>files := [([''tmp''], Dir), ([''keep''], File ''k'')]\<rparr>)
   \<and> entry_at (tree_world\<lparr>files := [([''tmp''], Dir), ([''keep''], File ''k'')]\<rparr>)
        [''tmp'', ''sub'', ''b.txt''] = None
   \<and> RemoveContents ''tmp'' locked_world
     = (Some EACCES,
        locked_world\<lparr>files := [([''tmp''], Dir), ([''tmp'', ''sub''], Dir),
               ([''tmp'', ''sub'', ''b.txt''], File ''2''), ([''tmp'', ''z.log''], File ''3''),
               ([''keep''], File ''k'')]\<rparr>)
   \<and> entry_at locked_world [''tmp'', ''z.log''] = Some (File ''3'')"
proof -
  let ?w' = "tree_world\<lparr>files := [([''tmp''], Dir), ([''keep''], File ''k'')]\<rparr>"
  let ?w1 = "locked_world\<lparr>files := [([''tmp''], Dir), ([''tmp'', ''sub''], Dir),
               ([''tmp'', ''sub'', ''b.txt''], File ''2''), ([''tmp'', ''z.log''], File ''3''),
               ([''keep''], File ''k'')]\<rparr>"
  have ok: "RemoveContents ''tmp'' tree_world = (None, ?w')"
    by (simp add: RemoveContents_def os_Open_def File_Readdirnames_def File_Readdir_def
          children_def entry_at_def os_RemoveAll_def remove_all_def stuck_below_def
          tree_world_def)
  have sp: "strict_prefix (components ''tmp'') [''tmp'', ''sub'', ''b.txt'']"
    by (simp add: strict_prefix_def)
  have op: "os_Open ''tmp'' locked_world = Inr (FileHandle [''tmp''])"
    by (simp add: os_Open_def entry_at_def locked_world_def tree_world_def)
  have rd: "File_Readdirnames (Some (FileHandle [''tmp''])) (- 1) locked_world
              = ([''a.txt''] @ ''sub'' # [''z.log''], None)"
    by (simp add: File_Readdirnames_def File_Readdir_def children_def entry_at_def
          locked_world_def tree_world_def)
  have lp: "RemoveContents_loop ''tmp'' [''a.txt''] locked_world = (None, ?w1)"
    by (simp add: os_RemoveAll_def remove_all_def stuck_below_def locked_world_def tree_world_def)
  have rm: "os_RemoveAll (filepath_Join ''tmp'' ''sub'') ?w1 = (Some EACCES, ?w1)"
    by (simp add: os_RemoveAll_def remove_all_def stuck_below_def locked_world_def tree_world_def)
  have pz: "prefix (components ''tmp'' @ [''z.log'']) [''tmp'', ''z.log'']" by simp
  have z: "entry_at ?w1 [''tmp'', ''z.log''] = Some (File ''3'')"
    by (simp add: entry_at_def)
  from RemoveContents_removes_children [OF well_formed_tree_world, of "''tmp''" ?w']
    RemoveContents_removes_children [OF well_formed_locked_world,
      of "''tmp''" _ "FileHandle [''tmp'']" "[''a.txt'']" "''sub''" "[''z.log'']" ?w1 EACCES ?w1]
    ok sp op rd lp rm pz z
  show ?thesis by simp
qed

section \<open>Properties of the shortcut creator\<close>

lemma ole_call_simps [simp]:
  "fst (ole_call c ow) = ole_faults ow c"
  "trace (snd (ole_call c ow)) = trace ow @ [c]"
  "ole_faults (snd (ole_call c ow)) = ole_faults ow"
  "links (snd (ole_call c ow)) = links ow"
  by (simp_all add: ole_call_def)

lemma put_property_trace [simp]:
  "trace (snd (put_property name v s)) = trace (snd s) @ [PutProperty name v]"
  "ole_faults (snd (put_property name v s)) = ole_faults (snd s)"
  "links (snd (put_property name v s)) = links (snd s)"
  "so_path (fst (put_property name v s)) = so_path (fst s)"
  by (simp_all add: put_property_def oleutil_PutProperty_def ole_call_def split: option.splits)

lemma put_optional_trace [simp]:
  "trace (snd (put_optional name p s)) = trace (snd s) @ optional_put name p"
  "ole_faults (snd (put_optional name p s)) = ole_faults (snd s)"
  "links (snd (put_optional name p s)) = links (snd s)"
  "so_path (fst (put_optional name p s)) = so_path (fst s)"
  by (simp_all add: put_optional_def optional_put_def)

lemma shortcut_Save_trace:
  "trace (snd (shortcut_Save obj ow)) = trace ow @ [CallMethod ''Save'']"
  by (simp add: shortcut_Save_def ole_call_def split: option.splits)

lemma CreateShortcut_trace:
  assumes "ole_faults ow (CreateObject ''WScript.Shell'') = None"
    and "ole_faults ow QueryInterface = None"
    and "ole_faults ow (CallMethod ''CreateShortcut'') = None"
  shows "trace (snd (CreateShortcut shortcut ow)) =
           trace ow @ [CoInitializeEx, CreateObject ''WScript.Shell'', QueryInterface,
                       CallMethod ''CreateShortcut'', PutProperty ''TargetPath'' (TargetPath shortcut)]
             @ optional_put ''Arguments'' (Arguments shortcut)
             @ optional_put ''Description'' (Description shortcut)
             @ optional_put ''IconLocation'' (IconLocation shortcut)
             @ optional_put ''WorkingDirectory'' (WorkingDirectory shortcut)
             @ [CallMethod ''Save'']"
  using assms
  by (simp add: CreateShortcut_def oleutil_CreateObject_def ole_QueryInterface_def
        wshell_CreateShortcut_def shortcut_Save_trace case_prod_unfold)

lemma put_property_props:
  "ole_faults (snd s) (PutProperty name v) = None \<Longrightarrow>
     map_of (so_props (fst (put_property name v s))) = (map_of (so_props (fst s)))(name \<mapsto> v)"
  by (simp add: put_property_def oleutil_PutProperty_def ole_call_def update_conv')

lemma put_optional_props:
  "ole_faults (snd s) (PutProperty name (Value p)) = None \<Longrightarrow>
     map_of (so_props (fst (put_optional name p s))) =
       (if Value p \<noteq> [] \<or> Clear p then (map_of (so_props (fst s)))(name \<mapsto> Value p)
        else map_of (so_props (fst s)))"
  by (simp add: put_optional_def put_property_props)

lemma optional_put_mem:
  "PutProperty name v \<in> set (optional_put name' p) \<longleftrightarrow>
     name = name' \<and> (Value p \<noteq> [] \<or> Clear p) \<and> v = Value p"
  by (auto simp: optional_put_def)

lemma CreateShortcut_saved:
  assumes nf: "\<And>c. ole_faults ow c = None"
  shows "fst (CreateShortcut shortcut ow) = None"
    and "\<exists>ps. map_of (links (snd (CreateShortcut shortcut ow))) (ShortcutPath shortcut) = Some ps
          \<and> map_of ps =
             (\<lambda>name.
                if name = ''WorkingDirectory'' \<and> (Value (WorkingDirectory shortcut) \<noteq> [] \<or> Clear (WorkingDirectory shortcut))
                  then Some (Value (WorkingDirectory shortcut))
                else if name = ''IconLocation'' \<and> (Value (IconLocation shortcut) \<noteq> [] \<or> Clear (IconLocation shortcut))
                  then Some (Value (IconLocation shortcut))
                else if name = ''Description'' \<and> (Value (Description shortcut) \<noteq> [] \<or> Clear (Description shortcut))
                  then Some (Value (Description shortcut))
                else if name = ''Arguments'' \<and> (Value (Arguments shortcut) \<noteq> [] \<or> Clear (Arguments shortcut))
                  then Some (Value (Arguments shortcut))
                else if name = ''TargetPath'' then Some (TargetPath shortcut)
                else map_of (case map_of (links ow) (ShortcutPath shortcut) of Some ps \<Rightarrow> ps | None \<Rightarrow> []) name)"
proof -
  let ?s0 = "(\<lparr>so_path = ShortcutPath shortcut,
               so_props = (case map_of (links ow) (ShortcutPath shortcut) of Some ps \<Rightarrow> ps | None \<Rightarrow> [])\<rparr>,
              snd (ole_call (CallMethod ''CreateShortcut'') (snd (ole_call QueryInterface
                (snd (ole_call (CreateObject ''WScript.Shell'') (snd (ole_call CoInitializeEx ow))))))))"
  let ?s = "put_optional ''WorkingDirectory'' (WorkingDirectory shortcut)
              (put_optional ''IconLocation'' (IconLocation shortcut)
                (put_optional ''Description'' (Description shortcut)
                  (put_optional ''Arguments'' (Arguments shortcut)
                    (put_property ''TargetPath'' (TargetPath shortcut) ?s0))))"
  have cs: "CreateShortcut shortcut ow = shortcut_Save (fst ?s) (snd ?s)"
    by (simp add: CreateShortcut_def oleutil_CreateObject_def ole_QueryInterface_def
          wshell_CreateShortcut_def case_prod_unfold nf)
  have f: "ole_faults (snd ?s) = ole_faults ow" by simp
  show "fst (CreateShortcut shortcut ow) = None"
    unfolding cs by (simp add: shortcut_Save_def case_prod_unfold nf)
  have l: "links (snd (CreateShortcut shortcut ow))
             = AList.update (ShortcutPath shortcut) (so_props (fst ?s)) (links ow)"
    unfolding cs by (simp add: shortcut_Save_def case_prod_unfold nf)
  have "map_of (so_props (fst ?s)) =
             (\<lambda>name.
                if name = ''WorkingDirectory'' \<and> (Value (WorkingDirectory shortcut) \<noteq> [] \<or> Clear (WorkingDirectory shortcut))
                  then Some (Value (WorkingDirectory shortcut))
                else if name = ''IconLocation'' \<and> (Value (IconLocation shortcut) \<noteq> [] \<or> Clear (IconLocation shortcut))
                  then Some (Value (IconLocation shortcut))
                else if name = ''Description'' \<and> (Value (Description shortcut) \<noteq> [] \<or> Clear (Description shortcut))
                  then Some (Value (Description shortcut))
                else if name = ''Arguments'' \<and> (Value (Arguments shortcut) \<noteq> [] \<or> Clear (Arguments shortcut))
                  then Some (Value (Arguments shortcut))
                else if name = ''TargetPath'' then Some (TargetPath shortcut)
                else map_of (case map_of (links ow) (ShortcutPath shortcut) of Some ps \<Rightarrow> ps | None \<Rightarrow> []) name)"
    by (rule ext) (auto simp: put_optional_props put_property_props nf)
  with l show "\<exists>ps. map_of (links (snd (CreateShortcut shortcut ow))) (ShortcutPath shortcut) = Some ps
          \<and> map_of ps =
             (\<lambda>name.
                if name = ''WorkingDirectory'' \<and> (Value (WorkingDirectory shortcut) \<noteq> [] \<or> Clear (WorkingDirectory shortcut))
                  then Some (Value (WorkingDirectory shortcut))
                else if name = ''IconLocation'' \<and> (Value (IconLocation shortcut) \<noteq> [] \<or> Clear (IconLocation shortcut))
                  then Some (Value (IconLocation shortcut))
                else if name = ''Description'' \<and> (Value (Description shortcut) \<noteq> [] \<or> Clear (Description shortcut))
                  then Some (Value (Description shortcut))
                else if name = ''Arguments'' \<and> (Value (Arguments shortcut) \<noteq> [] \<or> Clear (Arguments shortcut))
                  then Some (Value (Arguments shortcut))
                else if name = ''TargetPath'' then Some (TargetPath shortcut)
                else map_of (case map_of (links ow) (ShortcutPath shortcut) of Some ps \<Rightarrow> ps | None \<Rightarrow> []) name)"
    by (simp add: update_conv')
qed

text \<open>
  Claim C6. When the shell object and the shortcut object are obtained, the calls that
  \<open>CreateShortcut\<close> adds to the trace hold \<open>PutProperty\<close> of \<open>TargetPath\<close>, and for each
  of \<open>Arguments\<close>, \<open>Description\<close>, \<open>IconLocation\<close> and \<open>WorkingDirectory\<close> a \<open>PutProperty\<close>
  with a value \<open>v\<close> exactly when the value of the property is not empty or its clear flag
  is set, and then \<open>v\<close> is that value (the empty string when only the flag is set). When
  no call fails the function returns nil and the saved file holds, for each of the four,
  the value of the descriptor if it was put and what the file held before if not.
\<close>

theorem CreateShortcut_optional_properties:
  assumes "ole_faults ow (CreateObject ''WScript.Shell'') = None"
    and "ole_faults ow QueryInterface = None"
    and "ole_faults ow (CallMethod ''CreateShortcut'') = None"
  shows "\<exists>new. trace (snd (CreateShortcut shortcut ow)) = trace ow @ new
      \<and> PutProperty ''TargetPath'' (TargetPath shortcut) \<in> set new
      \<and> (PutProperty ''Arguments'' v \<in> set new \<longleftrightarrow>
           (Value (Arguments shortcut) \<noteq> [] \<or> Clear (Arguments shortcut))
           \<and> v = Value (Arguments shortcut))
      \<and> (PutProperty ''Description'' v \<in> set new \<longleftrightarrow>
           (Value (Description shortcut) \<noteq> [] \<or> Clear (Description shortcut))
           \<and> v = Value (Description shortcut))
      \<and> (PutProperty ''IconLocation'' v \<in> set new \<longleftrightarrow>
           (Value (IconLocation shortcut) \<noteq> [] \<or> Clear (IconLocation shortcut))
           \<and> v = Value (IconLocation shortcut))
      \<and> (PutProperty ''WorkingDirectory'' v \<in> set new \<longleftrightarrow>
           (Value (WorkingDirectory shortcut) \<noteq> [] \<or> Clear (WorkingDirectory shortcut))
           \<and> v = Value (WorkingDirectory shortcut))
      \<and> ((\<forall>c. ole_faults ow c = None) \<longrightarrow>
           fst (CreateShortcut shortcut ow) = None
           \<and> (\<forall>(name, p) \<in> set [(''Arguments'', Arguments shortcut),
                                  (''Description'', Description shortcut),
                                  (''IconLocation'', IconLocation shortcut),
                                  (''WorkingDirectory'', WorkingDirectory shortcut)].
                 saved_property (snd (CreateShortcut shortcut ow)) (ShortcutPath shortcut) name =
                   (if Value p \<noteq> [] \<or> Clear p then Some (Value p)
                    else saved_property ow (ShortcutPath shortcut) name)))"
proof -
  let ?new = "[CoInitializeEx, CreateObject ''WScript.Shell'', QueryInterface,
               CallMethod ''CreateShortcut'', PutProperty ''TargetPath'' (TargetPath shortcut)]
             @ optional_put ''Arguments'' (Arguments shortcut)
             @ optional_put ''Description'' (Description shortcut)
             @ optional_put ''IconLocation'' (IconLocation shortcut)
             @ optional_put ''WorkingDirectory'' (WorkingDirectory shortcut)
             @ [CallMethod ''Save'']"
  have t: "trace (snd (CreateShortcut shortcut ow)) = trace ow @ ?new"
    using assms by (rule CreateShortcut_trace)
  have tp: "PutProperty ''TargetPath'' (TargetPath shortcut) \<in> set ?new" by simp
  have a: "PutProperty ''Arguments'' v \<in> set ?new \<longleftrightarrow>
           (Value (Arguments shortcut) \<noteq> [] \<or> Clear (Arguments shortcut))
           \<and> v = Value (Arguments shortcut)"
    by (simp add: optional_put_mem)
  have d: "PutProperty ''Description'' v \<in> set ?new \<longleftrightarrow>
           (Value (Description shortcut) \<noteq> [] \<or> Clear (Description shortcut))
           \<and> v = Value (Description shortcut)"
    by (simp add: optional_put_mem)
  have i: "PutProperty ''IconLocation'' v \<in> set ?new \<longleftrightarrow>
           (Value (IconLocation shortcut) \<noteq> [] \<or> Clear (IconLocation shortcut))
           \<and> v = Value (IconLocation shortcut)"
    by (simp add: optional_put_mem)
  have w: "PutProperty ''WorkingDirectory'' v \<in> set ?new \<longleftrightarrow>
           (Value (WorkingDirectory shortcut) \<noteq> [] \<or> Clear (WorkingDirectory shortcut))
           \<and> v = Value (WorkingDirectory shortcut)"
    by (simp add: optional_put_mem)
  have s: "fst (CreateShortcut shortcut ow) = None
           \<and> (\<forall>(name, p) \<in> set [(''Arguments'', Arguments shortcut),
                                  (''Description'', Description shortcut),
                                  (''IconLocation'', IconLocation shortcut),
                                  (''WorkingDirectory'', WorkingDirectory shortcut)].
                 saved_property (snd (CreateShortcut shortcut ow)) (ShortcutPath shortcut) name =
                   (if Value p \<noteq> [] \<or> Clear p then Some (Value p)
                    else saved_property ow (ShortcutPath shortcut) name))"
    if nf: "\<forall>c. ole_faults ow c = None"
  proof -
    from nf have nf': "\<And>c. ole_faults ow c = None" by simp
    from CreateShortcut_saved(2) [OF nf', of shortcut] obtain ps where
      l: "map_of (links (snd (CreateShortcut shortcut ow))) (ShortcutPath shortcut) = Some ps"
      and m: "map_of ps =
             (\<lambda>name.
                if name = ''WorkingDirectory'' \<and> (Value (WorkingDirectory shortcut) \<noteq> [] \<or> Clear (WorkingDirectory shortcut))
                  then Some (Value (WorkingDirectory shortcut))
                else if name = ''IconLocation'' \<and> (Value (IconLocation shortcut) \<noteq> [] \<or> Clear (IconLocation shortcut))
                  then Some (Value (IconLocation shortcut))
                else if name = ''Description'' \<and> (Value (Description shortcut) \<noteq> [] \<or> Clear (Description shortcut))
                  then Some (Value (Description shortcut))
                else if name = ''Arguments'' \<and> (Value (Arguments shortcut) \<noteq> [] \<or> Clear (Arguments shortcut))
                  then Some (Value (Arguments shortcut))
                else if name = ''TargetPath'' then Some (TargetPath shortcut)
                else map_of (case map_of (links ow) (ShortcutPath shortcut) of Some ps \<Rightarrow> ps | None \<Rightarrow> []) name)"
      by blast
    have old: "map_of (case map_of (links ow) (ShortcutPath shortcut) of Some ps \<Rightarrow> ps | None \<Rightarrow> []) name
                 = saved_property ow (ShortcutPath shortcut) name" for name
      by (simp add: saved_property_def split: option.splits)
    have new: "saved_property (snd (CreateShortcut shortcut ow)) (ShortcutPath shortcut) name
                 = map_of ps name" for name
      by (simp add: saved_property_def l)
    from CreateShortcut_saved(1) [OF nf', of shortcut] show ?thesis
      by (simp add: new m old)
  qed
  from t tp a d i w s show ?thesis by blast
qed

theorem CreateShortcut_optional_properties_witness:
  "PutProperty ''Arguments'' [] \<in> set (trace (snd (CreateShortcut lnk_shortcut lnk_world)))
   \<and> PutProperty ''Description'' [] \<notin> set (trace (snd (CreateShortcut lnk_shortcut lnk_world)))
   \<and> saved_property lnk_world ''app.lnk'' ''Arguments'' = Some ''--old''
   \<and> saved_property (snd (CreateShortcut lnk_shortcut lnk_world)) ''app.lnk'' ''Arguments'' = Some []
   \<and> saved_property (snd (CreateShortcut lnk_shortcut lnk_world)) ''app.lnk'' ''Description'' = Some ''Old''
   \<and> saved_property (snd (CreateShortcut lnk_shortcut lnk_world)) ''app.lnk'' ''IconLocation'' = Some ''app.ico''
   \<and> saved_property (snd (CreateShortcut lnk_shortcut lnk_world)) ''app.lnk'' ''WorkingDirectory'' = None"
proof -
  have f: "ole_faults lnk_world c = None" for c by (simp add: lnk_world_def)
  have t0: "trace lnk_world = []" by (simp add: lnk_world_def)
  have old: "saved_property lnk_world ''app.lnk'' ''Arguments'' = Some ''--old''"
    "saved_property lnk_world ''app.lnk'' ''Description'' = Some ''Old''"
    "saved_property lnk_world ''app.lnk'' ''WorkingDirectory'' = None"
    by (simp_all add: saved_property_def lnk_world_def)
  from CreateShortcut_optional_properties [OF f f f, of lnk_shortcut "[]"] f t0 old
  show ?thesis
    by (auto simp: lnk_shortcut_def)
qed

section \<open>Properties of the cleaning step\<close>



















lemma components_release [simp]:
  "components ''build'' = [''build'']"
  "components ''setup'' = [''setup'']"
  by (simp_all add: components_def IsPathSeparator_def)

lemma expand_release [simp]:
  "expand_property release_props ''debug'' = ''false''"
  "expand_property release_props ''build.path'' = ''build''"
  "expand_property release_props ''setup.path'' = ''setup''"
  "expand_property release_props ''tmp.path'' = ''tmp''"
  by (simp_all add: expand_property_def release_props_def)


end
